theory Spec2Isabelle
  imports Main
begin

section \<open>The subprocess wrapper of common/exec.go\<close>

subsection \<open>Data model\<close>

text \<open>
  A Go \<open>error\<close> is an interface whose only observable is the text returned by
  \<open>Error()\<close>; a nil error is \<open>None\<close> of \<open>error option\<close>.
\<close>

datatype error = MkError (Error: string)

text \<open>
  The three pipe ends the wrapper keeps. A field of interface type that was never
  assigned, or was assigned the nil result of a failed pipe call, is \<open>None\<close>.
\<close>

datatype handle = InputWrite | OutputRead | ErrorRead

text \<open>A Go byte slice: \<open>None\<close> is the nil slice, \<open>Some bs\<close> a slice holding \<open>bs\<close>.\<close>

type_synonym bytes = "string option"

text \<open>
  \<open>exec.Cmd\<close> as far as \<open>NewExec\<close> fills it: \<open>exec.Command\<close> stores the
  command as path and as first argument, \<open>NewExec\<close> adds the environment.
\<close>

record Cmd_t =
  Path :: string
  Args :: "string list"
  Env :: "string list"

text \<open>
  Modelled from the spec: the declaration of \<open>SynqError\<close> is not among the sources.
  The spec gives the payload as \<open>{name, url, message, details?}\<close>, the last one opaque
  JSON that is present only when set; \<open>MarshalError\<close> assigns a pointer to a
  \<open>json.RawMessage\<close> to it, so \<open>None\<close> is the nil pointer.
\<close>

record SynqError =
  Name :: string
  Url :: string
  Message :: string
  Details :: "bytes option"

record ExecObj =
  Cmd :: Cmd_t
  stdout :: "handle option"
  stderr :: "handle option"
  stdin :: "handle option"
  ReadOut :: bytes
  ReadErr :: bytes
  RunErr :: "error option"
  Err :: SynqError

text \<open>
  What the operating system answers to each call that \<open>Exec\<close> makes on the command,
  should the call be made: the three pipe requests, the start, closing the input end
  (after the caller's callback has run), reading each stream to its end, and the wait.
\<close>

record exec_world =
  stdin_pipe :: "error option"
  stdout_pipe :: "error option"
  stderr_pipe :: "error option"
  start :: "error option"
  close_stdin :: "error option"
  read_stdout :: "error + string"
  read_stderr :: "error + string"
  wait :: "error option"

text \<open>The calls made on the command and its pipes, in the order they are made.\<close>

datatype op =
  OpStdinPipe | OpStdoutPipe | OpStderrPipe | OpStart | OpCallback
  | OpCloseStdin | OpReadStdout | OpReadStderr | OpWait

subsection \<open>Construction and the run\<close>

definition default_message :: string where
  "default_message = ''An error occured while running your script''"

definition NewExec :: "string list \<Rightarrow> string \<Rightarrow> string list \<Rightarrow> ExecObj" where
  "NewExec environ command args =
     \<lparr>Cmd = \<lparr>Path = command, Args = command # args, Env = environ\<rparr>,
      stdout = None, stderr = None, stdin = None,
      ReadOut = None, ReadErr = None, RunErr = None,
      Err = \<lparr>Name = ''exec_error'',
             Url = ''http://docs.synq.fm/api/v1/errors/'',
             Message = default_message,
             Details = None\<rparr>\<rparr>"

text \<open>
  \<open>Open\<close> stores the result of each pipe call before it looks at the error; a failed
  pipe call returns the nil interface.
\<close>

definition Open :: "exec_world \<Rightarrow> ExecObj \<Rightarrow> op list \<times> error option \<times> ExecObj" where
  "Open w e =
     (case stdin_pipe w of
        Some err \<Rightarrow> ([OpStdinPipe], Some err, e\<lparr>stdin := None\<rparr>)
      | None \<Rightarrow>
          (case stdout_pipe w of
             Some err \<Rightarrow>
               ([OpStdinPipe, OpStdoutPipe], Some err,
                e\<lparr>stdin := Some InputWrite, stdout := None\<rparr>)
           | None \<Rightarrow>
               (case stderr_pipe w of
                  Some err \<Rightarrow>
                    ([OpStdinPipe, OpStdoutPipe, OpStderrPipe], Some err,
                     e\<lparr>stdin := Some InputWrite, stdout := Some OutputRead, stderr := None\<rparr>)
                | None \<Rightarrow>
                    ([OpStdinPipe, OpStdoutPipe, OpStderrPipe], None,
                     e\<lparr>stdin := Some InputWrite, stdout := Some OutputRead,
                       stderr := Some ErrorRead\<rparr>))))"

text \<open>
  \<open>Close\<close> calls \<open>Close()\<close> on the error-stream handle, then on the output-stream
  handle, and drops what they return. A method call on a nil interface panics. The
  result lists the handles closed, in order.
\<close>

datatype fault = NilDereference

definition Close :: "ExecObj \<Rightarrow> fault + handle list" where
  "Close e =
     (case stderr e of
        None \<Rightarrow> Inl NilDereference
      | Some h2 \<Rightarrow>
          (case stdout e of
             None \<Rightarrow> Inl NilDereference
           | Some h1 \<Rightarrow> Inr [h2, h1]))"

definition Read :: "exec_world \<Rightarrow> ExecObj \<Rightarrow> op list \<times> error option \<times> ExecObj" where
  "Read w e =
     (case read_stdout w of
        Inl err \<Rightarrow> ([OpReadStdout], Some err, e)
      | Inr o1 \<Rightarrow>
          (case read_stderr w of
             Inl err \<Rightarrow> ([OpReadStdout, OpReadStderr], Some err, e\<lparr>ReadOut := Some o1\<rparr>)
           | Inr o2 \<Rightarrow>
               ([OpReadStdout, OpReadStderr], None,
                e\<lparr>ReadOut := Some o1, ReadErr := Some o2\<rparr>)))"

definition Exec :: "exec_world \<Rightarrow> ExecObj \<Rightarrow> op list \<times> ExecObj" where
  "Exec w e =
     (case Open w e of
        (t1, Some err, e1) \<Rightarrow> (t1, e1\<lparr>RunErr := Some err\<rparr>)
      | (t1, None, e1) \<Rightarrow>
          (case start w of
             Some err \<Rightarrow> (t1 @ [OpStart], e1\<lparr>RunErr := Some err\<rparr>)
           | None \<Rightarrow>
               (case close_stdin w of
                  Some err \<Rightarrow>
                    (t1 @ [OpStart, OpCallback, OpCloseStdin], e1\<lparr>RunErr := Some err\<rparr>)
                | None \<Rightarrow>
                    (case Read w e1 of
                       (t2, Some err, e2) \<Rightarrow>
                         (t1 @ [OpStart, OpCallback, OpCloseStdin] @ t2,
                          e2\<lparr>RunErr := Some err\<rparr>)
                     | (t2, None, e2) \<Rightarrow>
                         (case wait w of
                            Some err \<Rightarrow>
                              (t1 @ [OpStart, OpCallback, OpCloseStdin] @ t2 @ [OpWait],
                               e2\<lparr>RunErr := Some err\<rparr>)
                          | None \<Rightarrow>
                              (t1 @ [OpStart, OpCallback, OpCloseStdin] @ t2 @ [OpWait],
                               e2))))))"

definition ErrorMsg :: "ExecObj \<Rightarrow> string" where
  "ErrorMsg e = (case RunErr e of None \<Rightarrow> [] | Some err \<Rightarrow> Error err)"

definition StatusCode :: "ExecObj \<Rightarrow> int" where
  "StatusCode e = (if ErrorMsg e = [] then 200 else 400)"

subsection \<open>encoding/json, as far as \<open>MarshalError\<close> uses it\<close>

text \<open>
  \<open>MarshalError\<close> hands the payload to \<open>json.MarshalIndent\<close> of the Go standard
  library, taken as in the Go releases of the time of the repository (Go 1.8 to 1.10:
  \<open>Marshal\<close> first, then \<open>Indent\<close> over the compact text). The pieces below follow that library: the
  scanner's grammar, the string encoder with HTML escaping, \<open>compact\<close> and
  \<open>Indent\<close>. Bytes are \<open>char\<close>s.
\<close>

definition is_space :: "char \<Rightarrow> bool" where
  "is_space c = (c = CHR '' '' \<or> c = CHR 0x09 \<or> c = CHR 0x0D \<or> c = CHR 0x0A)"

definition is_digit :: "char \<Rightarrow> bool" where
  "is_digit c = (48 \<le> (of_char c :: nat) \<and> (of_char c :: nat) \<le> 57)"

definition is_hex :: "char \<Rightarrow> bool" where
  "is_hex c =
     (is_digit c \<or> (97 \<le> (of_char c :: nat) \<and> (of_char c :: nat) \<le> 102)
      \<or> (65 \<le> (of_char c :: nat) \<and> (of_char c :: nat) \<le> 70))"

fun skip_space :: "string \<Rightarrow> string" where
  "skip_space [] = []"
| "skip_space (c # cs) = (if is_space c then skip_space cs else c # cs)"

text \<open>The rest of the input after a string literal whose opening quote has been read.\<close>

fun scan_string :: "string \<Rightarrow> string option" where
  "scan_string [] = None"
| "scan_string (c # cs) =
     (if c = CHR 0x22 then Some cs
      else if c = CHR 0x5C then
        (case cs of
           [] \<Rightarrow> None
         | d # ds \<Rightarrow>
             (if d \<in> set [CHR 0x22, CHR 0x5C, CHR ''/'', CHR ''b'', CHR ''f'', CHR ''n'',
                          CHR ''r'', CHR ''t'']
              then scan_string ds
              else if d = CHR ''u'' then
                (case ds of
                   h1 # h2 # h3 # h4 # r \<Rightarrow>
                     (if is_hex h1 \<and> is_hex h2 \<and> is_hex h3 \<and> is_hex h4
                      then scan_string r else None)
                 | _ \<Rightarrow> None)
              else None))
      else if (of_char c :: nat) < 32 then None
      else scan_string cs)"

definition scan_digits1 :: "string \<Rightarrow> string option" where
  "scan_digits1 cs =
     (case cs of
        [] \<Rightarrow> None
      | c # r \<Rightarrow> (if is_digit c then Some (dropWhile is_digit r) else None))"

definition scan_exponent :: "string \<Rightarrow> string option" where
  "scan_exponent cs =
     (case cs of
        [] \<Rightarrow> Some cs
      | x # r \<Rightarrow>
          (if x = CHR ''e'' \<or> x = CHR ''E'' then
             (case r of
                [] \<Rightarrow> None
              | s # r' \<Rightarrow>
                  (if s = CHR ''+'' \<or> s = CHR ''-'' then scan_digits1 r' else scan_digits1 r))
           else Some cs))"

definition scan_fraction :: "string \<Rightarrow> string option" where
  "scan_fraction cs =
     (case cs of
        [] \<Rightarrow> Some cs
      | d # r \<Rightarrow>
          (if d = CHR ''.'' then
             (case scan_digits1 r of None \<Rightarrow> None | Some r' \<Rightarrow> scan_exponent r')
           else scan_exponent cs))"

definition scan_number :: "string \<Rightarrow> string option" where
  "scan_number cs =
     (case (case cs of c # r \<Rightarrow> (if c = CHR ''-'' then r else cs) | [] \<Rightarrow> cs) of
        [] \<Rightarrow> None
      | c # r \<Rightarrow>
          (if c = CHR ''0'' then scan_fraction r
           else if is_digit c then scan_fraction (dropWhile is_digit r)
           else None))"

definition scan_literal :: "string \<Rightarrow> string \<Rightarrow> string option" where
  "scan_literal lit cs = (if take (length lit) cs = lit then Some (drop (length lit) cs) else None)"

text \<open>
  A value that is no object and no array, from its first byte on: a string, a number or
  one of the three literals.
\<close>

definition scan_scalar :: "char \<Rightarrow> string \<Rightarrow> string option" where
  "scan_scalar c r =
     (if c = CHR 0x22 then scan_string r
      else if c = CHR ''-'' \<or> is_digit c then scan_number (c # r)
      else if c = CHR ''t'' then scan_literal ''true'' (c # r)
      else if c = CHR ''f'' then scan_literal ''false'' (c # r)
      else if c = CHR ''n'' then scan_literal ''null'' (c # r)
      else None)"

text \<open>
  One JSON value, with the space before it; the result is the input after the value.
  The first argument bounds the number of nested calls; a value that takes up \<open>k\<close>
  bytes of the input is read with any bound from \<open>k\<close> on (lemma \<open>scan_fuel\<close>).
\<close>

fun scan_value :: "nat \<Rightarrow> string \<Rightarrow> string option"
  and scan_members :: "nat \<Rightarrow> string \<Rightarrow> string option"
  and scan_elements :: "nat \<Rightarrow> string \<Rightarrow> string option" where
  "scan_value 0 cs = None"
| "scan_value (Suc n) cs =
     (case skip_space cs of
        [] \<Rightarrow> None
      | c # r \<Rightarrow>
          (if c = CHR ''{'' then
             (case skip_space r of
                [] \<Rightarrow> None
              | d # r' \<Rightarrow> (if d = CHR ''}'' then Some r' else scan_members n r))
           else if c = CHR ''['' then
             (case skip_space r of
                [] \<Rightarrow> None
              | d # r' \<Rightarrow> (if d = CHR '']'' then Some r' else scan_elements n r))
           else scan_scalar c r))"
| "scan_members 0 cs = None"
| "scan_members (Suc n) cs =
     (case skip_space cs of
        [] \<Rightarrow> None
      | c # r \<Rightarrow>
          (if c = CHR 0x22 then
             (case scan_string r of
                None \<Rightarrow> None
              | Some r1 \<Rightarrow>
                  (case skip_space r1 of
                     [] \<Rightarrow> None
                   | d # r2 \<Rightarrow>
                       (if d = CHR '':'' then
                          (case scan_value n r2 of
                             None \<Rightarrow> None
                           | Some r3 \<Rightarrow>
                               (case skip_space r3 of
                                  [] \<Rightarrow> None
                                | x # r4 \<Rightarrow>
                                    (if x = CHR '','' then scan_members n r4
                                     else if x = CHR ''}'' then Some r4
                                     else None)))
                        else None)))
           else None))"
| "scan_elements 0 cs = None"
| "scan_elements (Suc n) cs =
     (case scan_value n cs of
        None \<Rightarrow> None
      | Some r3 \<Rightarrow>
          (case skip_space r3 of
             [] \<Rightarrow> None
           | x # r4 \<Rightarrow>
               (if x = CHR '','' then scan_elements n r4
                else if x = CHR '']'' then Some r4
                else None)))"

text \<open>\<open>checkValid\<close>: the whole input is one JSON value with space around it.\<close>

definition checkValid :: "string \<Rightarrow> bool" where
  "checkValid data =
     (case scan_value (Suc (length data)) data of
        None \<Rightarrow> False
      | Some r \<Rightarrow> skip_space r = [])"

text \<open>
  The string encoder of \<open>Marshal\<close> (HTML escaping on). ASCII bytes are copied, except
  the quote and the backslash, the control bytes, and \<open><\<close>, \<open>>\<close>, \<open>&\<close>; a byte
  sequence that is not valid UTF-8 becomes the escape of U+FFFD, and U+2028 and U+2029 are escaped.
\<close>

definition hex :: "nat \<Rightarrow> char" where
  "hex n = ''0123456789abcdef'' ! (n mod 16)"

definition in_range :: "char \<Rightarrow> nat \<Rightarrow> nat \<Rightarrow> bool" where
  "in_range c lo hi = (lo \<le> of_char c \<and> (of_char c :: nat) \<le> hi)"

text \<open>\<open>utf8.DecodeRune\<close>: whether the input starts with a valid encoding, and its size.\<close>

definition DecodeRune :: "string \<Rightarrow> bool \<times> nat" where
  "DecodeRune s =
     (case s of
        [] \<Rightarrow> (False, 0)
      | b0 # r \<Rightarrow>
          (if in_range b0 0 0x7F then (True, 1)
           else if in_range b0 0xC2 0xDF then
             (case r of
                b1 # _ \<Rightarrow> (if in_range b1 0x80 0xBF then (True, 2) else (False, 1))
              | _ \<Rightarrow> (False, 1))
           else if in_range b0 0xE0 0xEF then
             (case r of
                b1 # b2 # _ \<Rightarrow>
                  (if in_range b1 (if b0 = CHR 0xE0 then 0xA0 else 0x80)
                        (if b0 = CHR 0xED then 0x9F else 0xBF)
                      \<and> in_range b2 0x80 0xBF
                   then (True, 3) else (False, 1))
              | _ \<Rightarrow> (False, 1))
           else if in_range b0 0xF0 0xF4 then
             (case r of
                b1 # b2 # b3 # _ \<Rightarrow>
                  (if in_range b1 (if b0 = CHR 0xF0 then 0x90 else 0x80)
                        (if b0 = CHR 0xF4 then 0x8F else 0xBF)
                      \<and> in_range b2 0x80 0xBF \<and> in_range b3 0x80 0xBF
                   then (True, 4) else (False, 1))
              | _ \<Rightarrow> (False, 1))
           else (False, 1)))"

definition htmlSafe :: "char \<Rightarrow> bool" where
  "htmlSafe b =
     (in_range b 0x20 0x7F
      \<and> b \<notin> set [CHR 0x22, CHR 0x5C, CHR ''<'', CHR ''>'', CHR ''&''])"

definition escape_byte :: "char \<Rightarrow> string" where
  "escape_byte b =
     (if b = CHR 0x5C \<or> b = CHR 0x22 then [CHR 0x5C, b]
      else if b = CHR 0x0A then [CHR 0x5C, CHR ''n'']
      else if b = CHR 0x0D then [CHR 0x5C, CHR ''r'']
      else if b = CHR 0x09 then [CHR 0x5C, CHR ''t'']
      else [CHR 0x5C, CHR ''u'', CHR ''0'', CHR ''0'', hex (of_char b div 16), hex (of_char b)])"

fun encode_bytes :: "string \<Rightarrow> string" where
  "encode_bytes [] = []"
| "encode_bytes (b # r) =
     (if in_range b 0 0x7F then
        (if htmlSafe b then [b] else escape_byte b) @ encode_bytes r
      else if \<not> fst (DecodeRune (b # r)) then
        [CHR 0x5C, CHR ''u'', CHR ''f'', CHR ''f'', CHR ''f'', CHR ''d''] @ encode_bytes r
      else if b = CHR 0xE2 \<and> take 2 r = [CHR 0x80, CHR 0xA8] then
        [CHR 0x5C, CHR ''u'', CHR ''2'', CHR ''0'', CHR ''2'', CHR ''8''] @ encode_bytes (drop 2 r)
      else if b = CHR 0xE2 \<and> take 2 r = [CHR 0x80, CHR 0xA9] then
        [CHR 0x5C, CHR ''u'', CHR ''2'', CHR ''0'', CHR ''2'', CHR ''9''] @ encode_bytes (drop 2 r)
      else
        take (snd (DecodeRune (b # r))) (b # r)
          @ encode_bytes (drop (snd (DecodeRune (b # r)) - 1) r))"

definition encode_string :: "string \<Rightarrow> string" where
  "encode_string s = [CHR 0x22] @ encode_bytes s @ [CHR 0x22]"

text \<open>
  \<open>compact\<close>, as the encoder applies it to what a \<open>Marshaler\<close> returns: the text must be
  one JSON value; space outside of strings is dropped, \<open><\<close>, \<open>>\<close>, \<open>&\<close> and the
  encodings of U+2028 and U+2029 are escaped. The flags say whether the byte is inside a
  string and whether it follows a backslash there.
\<close>

fun compact_bytes :: "bool \<Rightarrow> bool \<Rightarrow> string \<Rightarrow> string" where
  "compact_bytes ins esc [] = []"
| "compact_bytes ins esc (c # cs) =
     (if c = CHR ''<'' \<or> c = CHR ''>'' \<or> c = CHR ''&'' then
        [CHR 0x5C, CHR ''u'', CHR ''0'', CHR ''0'', hex (of_char c div 16), hex (of_char c)]
          @ compact_bytes ins False cs
      else if c = CHR 0xE2 \<and> take 2 cs = [CHR 0x80, CHR 0xA8] then
        [CHR 0x5C, CHR ''u'', CHR ''2'', CHR ''0'', CHR ''2'', CHR ''8'']
          @ compact_bytes ins False (drop 2 cs)
      else if c = CHR 0xE2 \<and> take 2 cs = [CHR 0x80, CHR 0xA9] then
        [CHR 0x5C, CHR ''u'', CHR ''2'', CHR ''0'', CHR ''2'', CHR ''9'']
          @ compact_bytes ins False (drop 2 cs)
      else if ins then
        c # compact_bytes (esc \<or> c \<noteq> CHR 0x22) (\<not> esc \<and> c = CHR 0x5C) cs
      else if is_space c then compact_bytes False False cs
      else c # compact_bytes (c = CHR 0x22) False cs)"

datatype json_error = MarshalerError

definition compact :: "string \<Rightarrow> json_error + string" where
  "compact src = (if checkValid src then Inr (compact_bytes False False src) else Inl MarshalerError)"

text \<open>
  \<open>RawMessage.MarshalJSON\<close> returns \<open>null\<close> for the nil slice and the bytes themselves
  otherwise; the encoder then runs \<open>compact\<close> over them.
\<close>

definition marshal_raw :: "bytes \<Rightarrow> json_error + string" where
  "marshal_raw m = compact (case m of None \<Rightarrow> ''null'' | Some bs \<Rightarrow> bs)"

text \<open>
  \<open>Marshal\<close> of the payload: the fields in the order of the spec's shape, the details
  left out when the pointer is nil.
\<close>

definition Marshal :: "SynqError \<Rightarrow> json_error + string" where
  "Marshal p =
     (let head = ''{'' @ encode_string ''name'' @ '':'' @ encode_string (Name p)
                  @ '','' @ encode_string ''url'' @ '':'' @ encode_string (Url p)
                  @ '','' @ encode_string ''message'' @ '':'' @ encode_string (Message p)
      in case Details p of
           None \<Rightarrow> Inr (head @ ''}'')
         | Some m \<Rightarrow>
             (case marshal_raw m of
                Inl err \<Rightarrow> Inl err
              | Inr raw \<Rightarrow> Inr (head @ '','' @ encode_string ''details'' @ '':'' @ raw @ ''}'')))"

text \<open>
  \<open>Indent\<close> with the empty prefix and four spaces, over compact valid text: a line
  break and the indentation after an opening bracket (unless it is closed at once), after
  a comma and before a closing bracket, a space after a colon, strings copied as they are.
\<close>

definition newline :: "nat \<Rightarrow> string" where
  "newline depth = CHR 0x0A # concat (replicate depth ''    '')"

fun Indent_bytes :: "bool \<Rightarrow> bool \<Rightarrow> bool \<Rightarrow> nat \<Rightarrow> string \<Rightarrow> string" where
  "Indent_bytes ins esc needIndent depth [] = []"
| "Indent_bytes ins esc needIndent depth (c # cs) =
     (if ins then
        c # Indent_bytes (esc \<or> c \<noteq> CHR 0x22) (\<not> esc \<and> c = CHR 0x5C) needIndent depth cs
      else if is_space c then Indent_bytes False False needIndent depth cs
      else if c = CHR ''}'' \<or> c = CHR '']'' then
        (if needIndent then c # Indent_bytes False False False depth cs
         else newline (depth - 1) @ c # Indent_bytes False False False (depth - 1) cs)
      else
        (let depth' = (if needIndent then depth + 1 else depth);
             pre = (if needIndent then newline depth' else [])
         in if c = CHR ''{'' \<or> c = CHR ''['' then
              pre @ c # Indent_bytes False False True depth' cs
            else if c = CHR '','' then
              pre @ c # newline depth' @ Indent_bytes False False False depth' cs
            else if c = CHR '':'' then
              pre @ c # CHR '' '' # Indent_bytes False False False depth' cs
            else
              pre @ c # Indent_bytes (c = CHR 0x22) False False depth' cs))"

definition Indent :: "string \<Rightarrow> string" where
  "Indent src = Indent_bytes False False False 0 src"

definition MarshalIndent :: "SynqError \<Rightarrow> json_error + string" where
  "MarshalIndent p = (case Marshal p of Inl err \<Rightarrow> Inl err | Inr b \<Rightarrow> Inr (Indent b))"

subsection \<open>Status and body\<close>

text \<open>
  \<open>MarshalError\<close> changes the payload kept in the object and returns the body; when
  \<open>MarshalIndent\<close> fails the body is the nil slice it returned. The lines it writes to
  the log are not part of the model.
\<close>

definition MarshalError :: "ExecObj \<Rightarrow> bytes \<times> ExecObj" where
  "MarshalError e =
     (let e' = (if ErrorMsg e \<noteq> ''exit status 1''
                then e\<lparr>Err := (Err e)\<lparr>Message := ErrorMsg e\<rparr>\<rparr>
                else e\<lparr>Err := (Err e)\<lparr>Details := Some (ReadErr e)\<rparr>\<rparr>)
      in case MarshalIndent (Err e') of
           Inl err \<Rightarrow> (None, e')
         | Inr body \<Rightarrow> (Some body, e'))"

definition StatusBody :: "ExecObj \<Rightarrow> bytes \<times> ExecObj" where
  "StatusBody e = (if ErrorMsg e = [] then (ReadOut e, e) else MarshalError e)"

section \<open>The single-instance guard of common/exec.go\<close>

subsection \<open>strconv and fmt\<close>

text \<open>
  \<open>strconv.ParseUint\<close> in base 10 for 64 bits: the digits are read from the left; a byte
  that is no digit ends the loop with a syntax error and the value 0, an overflow ends
  it with a range error and the largest value, whatever follows.
\<close>

datatype num_error = ErrSyntax | ErrRange

definition maxUint64 :: int where
  "maxUint64 = 18446744073709551615"

fun ParseUint_loop :: "int \<Rightarrow> string \<Rightarrow> int \<times> num_error option" where
  "ParseUint_loop n [] = (n, None)"
| "ParseUint_loop n (d # ds) =
     (if \<not> is_digit d then (0, Some ErrSyntax)
      else if n \<ge> maxUint64 div 10 + 1 then (maxUint64, Some ErrRange)
      else if n * 10 + (of_char d - 48) > maxUint64 then (maxUint64, Some ErrRange)
      else ParseUint_loop (n * 10 + (of_char d - 48)) ds)"

definition ParseUint :: "string \<Rightarrow> int \<times> num_error option" where
  "ParseUint s = (if s = [] then (0, Some ErrSyntax) else ParseUint_loop 0 s)"

text \<open>
  \<open>strconv.ParseInt(s, 10, 64)\<close>: an optional sign, then \<open>ParseUint\<close>; a syntax error
  gives 0, a value out of range gives the bound of its sign with a range error.
\<close>

definition ParseInt :: "string \<Rightarrow> int \<times> num_error option" where
  "ParseInt s =
     (case s of
        [] \<Rightarrow> (0, Some ErrSyntax)
      | c # r \<Rightarrow>
          (let neg = (c = CHR ''-'');
               s' = (if c = CHR ''+'' \<or> c = CHR ''-'' then r else s);
               res = ParseUint s'
           in if snd res = Some ErrSyntax then (0, Some ErrSyntax)
              else if \<not> neg \<and> fst res \<ge> 2 ^ 63 then (2 ^ 63 - 1, Some ErrRange)
              else if neg \<and> fst res > 2 ^ 63 then (- (2 ^ 63), Some ErrRange)
              else (if neg then - fst res else fst res, None)))"

text \<open>The verb \<open>%d\<close> of \<open>fmt.Sprintf\<close>: decimal digits, a minus sign before a negative value.\<close>

function FormatUint :: "int \<Rightarrow> string" where
  "FormatUint n =
     (if n < 10 then [char_of (48 + n)]
      else FormatUint (n div 10) @ [char_of (48 + n mod 10)])"
  by pat_completeness auto
termination
  by (relation "measure nat") auto

definition FormatInt :: "int \<Rightarrow> string" where
  "FormatInt i = (if i < 0 then CHR ''-'' # FormatUint (- i) else FormatUint i)"

text \<open>\<open>strings.Contains\<close>.\<close>

fun Contains :: "string \<Rightarrow> string \<Rightarrow> bool" where
  "Contains [] substr = (substr = [])"
| "Contains (c # cs) substr = (take (length substr) (c # cs) = substr \<or> Contains cs substr)"

text \<open>
  Modelled from the spec: \<open>NewError\<close> is not among the sources. The spec has the call
  return an error naming the conflicting PID; it is taken to format its arguments as
  \<open>fmt.Errorf\<close> does.
\<close>

definition NewError :: "int \<Rightarrow> error" where
  "NewError pid =
     MkError (''Pid '' @ [CHR 0x27] @ FormatInt pid @ [CHR 0x27]
              @ '' already exists, will not run'')"

subsection \<open>CheckPid\<close>

text \<open>
  What the operating system answers to \<open>CheckPid\<close>: the caller's PID, whether reading
  and writing the lock file fail and how far they get, and the error of the zero signal
  sent to a PID (\<open>None\<close>: delivered). \<open>os.FindProcess\<close> always succeeds on Unix. The
  lock file itself is its content, \<open>None\<close> when there is no such file (\<open>os.Stat\<close>
  fails).
\<close>

record os_world =
  Getpid :: int
  read_fails :: bool
  read_stops :: "nat option"
  write_fails :: bool
  write_stops :: "nat option"
  Signal0 :: "int \<Rightarrow> error option"

text \<open>
  \<open>ioutil.ReadFile\<close> opens the file and reads it to its end. When it fails,
  \<open>read_stops\<close> says where: \<open>None\<close> when the file could not be opened, which gives
  the nil slice, and \<open>Some n\<close> when the read broke off after \<open>n\<close> bytes, which are
  returned with the error. \<open>CheckPid\<close> drops the error and uses the bytes.
\<close>

definition ReadFile :: "os_world \<Rightarrow> string \<Rightarrow> string" where
  "ReadFile w content =
     (if read_fails w then (case read_stops w of None \<Rightarrow> [] | Some n \<Rightarrow> take n content)
      else content)"

text \<open>
  \<open>ioutil.WriteFile\<close> opens the file with \<open>O_WRONLY|O_CREATE|O_TRUNC\<close>, writes the
  bytes and closes it. When it fails, \<open>write_stops\<close> says where: \<open>None\<close> when the file
  could not be opened, which leaves the file as it was (absent, if it was absent), and
  \<open>Some n\<close> when the failure came after the file had been created or truncated and
  \<open>n\<close> bytes had been written, which leaves a file holding just these bytes (an empty
  file for \<open>n = 0\<close>, the whole text when only the close failed).
\<close>

definition WriteFile :: "os_world \<Rightarrow> string option \<Rightarrow> string \<Rightarrow> string option" where
  "WriteFile w file new =
     (if write_fails w then (case write_stops w of None \<Rightarrow> file | Some n \<Rightarrow> Some (take n new))
      else Some new)"

definition pidExists :: "error option \<Rightarrow> bool" where
  "pidExists r =
     (case r of
        None \<Rightarrow> True
      | Some err \<Rightarrow>
          \<not> (Contains (Error err) ''already finished''
             \<or> Contains (Error err) ''no such process''))"

text \<open>The result is the pair that \<open>CheckPid\<close> returns and the lock file afterwards.\<close>

definition CheckPid :: "os_world \<Rightarrow> string option \<Rightarrow> (int \<times> error option) \<times> string option" where
  "CheckPid w file =
     (let currentPid = Getpid w
      in case file of
           None \<Rightarrow> ((currentPid, None), WriteFile w file (FormatInt currentPid))
         | Some content \<Rightarrow>
             (let pid = fst (ParseInt (ReadFile w content))
              in if currentPid = pid then ((currentPid, None), file)
                 else if pidExists (Signal0 w pid) then ((pid, Some (NewError pid)), file)
                 else ((currentPid, None), WriteFile w file (FormatInt currentPid))))"

section \<open>The properties of the specification\<close>

subsection \<open>The specification's reading of the run error\<close>

text \<open>
  The failure of each stage as the specification names them: opening is the three pipe
  requests in order, draining is the output stream and then the error stream. The run
  error it describes is the first failure of open, start, close-input, drain, wait.
\<close>

definition open_failure :: "exec_world \<Rightarrow> error option" where
  "open_failure w =
     (case stdin_pipe w of
        Some err \<Rightarrow> Some err
      | None \<Rightarrow> (case stdout_pipe w of Some err \<Rightarrow> Some err | None \<Rightarrow> stderr_pipe w))"

definition drain_failure :: "exec_world \<Rightarrow> error option" where
  "drain_failure w =
     (case read_stdout w of
        Inl err \<Rightarrow> Some err
      | Inr _ \<Rightarrow> (case read_stderr w of Inl err \<Rightarrow> Some err | Inr _ \<Rightarrow> None))"

fun first_failure :: "error option list \<Rightarrow> error option" where
  "first_failure [] = None"
| "first_failure (None # rs) = first_failure rs"
| "first_failure (Some err # rs) = Some err"

definition run_failure :: "exec_world \<Rightarrow> error option" where
  "run_failure w =
     first_failure [open_failure w, start w, close_stdin w, drain_failure w, wait w]"

subsection \<open>Sample environments\<close>

text \<open>A run in which every call succeeds and the command prints \<open>out\<close>.\<close>

definition world_ok :: exec_world where
  "world_ok =
     \<lparr>stdin_pipe = None, stdout_pipe = None, stderr_pipe = None, start = None,
      close_stdin = None, read_stdout = Inr ''out'', read_stderr = Inr [], wait = None\<rparr>"

text \<open>
  A command that writes a JSON document to its error stream and exits with status 1, and
  one that writes nothing at all and exits with status 1 (as \<open>false\<close> does).
\<close>

definition world_exit1 :: exec_world where
  \<open>world_exit1 =
     world_ok\<lparr>read_stderr := Inr ''{"foo":"bar"}'', wait := Some (MkError ''exit status 1'')\<rparr>\<close>


text \<open>
  An operating system for the guard: the caller is process 4242; process 77 is alive;
  process 1 is alive and owned by someone else; process 0 is not a process the library
  will signal; a signal sent to the largest 64-bit PID is delivered (the kernel reads a
  PID in 32 bits, where this one is -1, every process); every other process has gone.
  Reading and writing the lock file work.
\<close>

definition os_sample :: os_world where
  "os_sample =
     \<lparr>Getpid = 4242, read_fails = False, read_stops = None,
      write_fails = False, write_stops = None,
      Signal0 = (\<lambda>pid. if pid = 77 \<or> pid = 9223372036854775807 then None
                       else if pid = 1 then Some (MkError ''operation not permitted'')
                       else if pid = 0 then Some (MkError ''os: process not initialized'')
                       else Some (MkError ''os: process already finished''))\<rparr>"

section \<open>Proofs\<close>

subsection \<open>The stages of a run\<close>

declare FormatUint.simps [simp del]

lemma Open_result: "fst (snd (Open w e)) = open_failure w"
  by (simp add: Open_def open_failure_def split: option.splits)

lemma Open_trace: "set (fst (Open w e)) \<subseteq> {OpStdinPipe, OpStdoutPipe, OpStderrPipe}"
  by (simp add: Open_def split: option.splits)

lemma Open_fields:
  "RunErr (snd (snd (Open w e))) = RunErr e"
  "Err (snd (snd (Open w e))) = Err e"
  "ReadOut (snd (snd (Open w e))) = ReadOut e"
  "ReadErr (snd (snd (Open w e))) = ReadErr e"
  by (simp_all add: Open_def split: option.splits)

lemma Open_handles:
  "open_failure w = None \<Longrightarrow>
     stdin (snd (snd (Open w e))) = Some InputWrite
     \<and> stdout (snd (snd (Open w e))) = Some OutputRead
     \<and> stderr (snd (snd (Open w e))) = Some ErrorRead"
  by (simp add: Open_def open_failure_def split: option.splits)

lemma Read_result: "fst (snd (Read w e)) = drain_failure w"
  by (simp add: Read_def drain_failure_def split: sum.splits)

lemma Read_trace: "set (fst (Read w e)) \<subseteq> {OpReadStdout, OpReadStderr}"
  by (simp add: Read_def split: sum.splits)

lemma Read_fields:
  "RunErr (snd (snd (Read w e))) = RunErr e"
  "Err (snd (snd (Read w e))) = Err e"
  "stdin (snd (snd (Read w e))) = stdin e"
  "stdout (snd (snd (Read w e))) = stdout e"
  "stderr (snd (snd (Read w e))) = stderr e"
  by (simp_all add: Read_def split: sum.splits)

lemma Read_buffers:
  "drain_failure w = None \<Longrightarrow>
     ReadOut (snd (snd (Read w e))) = Some (projr (read_stdout w))
     \<and> ReadErr (snd (snd (Read w e))) = Some (projr (read_stderr w))"
  by (simp add: Read_def drain_failure_def split: sum.splits)

lemma Exec_unfold:
  "Exec w e =
     (let t1 = fst (Open w e); e1 = snd (snd (Open w e));
          t2 = fst (Read w e1); e2 = snd (snd (Read w e1))
      in case open_failure w of
           Some err \<Rightarrow> (t1, e1\<lparr>RunErr := Some err\<rparr>)
         | None \<Rightarrow>
      (case start w of
           Some err \<Rightarrow> (t1 @ [OpStart], e1\<lparr>RunErr := Some err\<rparr>)
         | None \<Rightarrow>
      (case close_stdin w of
           Some err \<Rightarrow> (t1 @ [OpStart, OpCallback, OpCloseStdin], e1\<lparr>RunErr := Some err\<rparr>)
         | None \<Rightarrow>
      (case drain_failure w of
           Some err \<Rightarrow>
             (t1 @ [OpStart, OpCallback, OpCloseStdin] @ t2, e2\<lparr>RunErr := Some err\<rparr>)
         | None \<Rightarrow>
      (case wait w of
           Some err \<Rightarrow>
             (t1 @ [OpStart, OpCallback, OpCloseStdin] @ t2 @ [OpWait],
              e2\<lparr>RunErr := Some err\<rparr>)
         | None \<Rightarrow> (t1 @ [OpStart, OpCallback, OpCloseStdin] @ t2 @ [OpWait], e2))))))"
proof -
  obtain t1 r1 e1 where O: "Open w e = (t1, r1, e1)"
    by (cases "Open w e")
  obtain t2 r2 e2 where R: "Read w e1 = (t2, r2, e2)"
    by (cases "Read w e1")
  have r1: "open_failure w = r1"
    using Open_result [of w e] O by simp
  have r2: "drain_failure w = r2"
    using Read_result [of w e1] R by simp
  show ?thesis
    by (simp add: Exec_def O R r1 r2 split: option.splits)
qed

lemma Exec_RunErr: "RunErr e = None \<Longrightarrow> RunErr (snd (Exec w e)) = run_failure w"
  by (simp add: Exec_unfold Let_def run_failure_def Open_fields Read_fields
      split: option.splits)


lemma NewExec_fields:
  "RunErr (NewExec environ command args) = None"
  "Message (Err (NewExec environ command args)) = default_message"
  "Details (Err (NewExec environ command args)) = None"
  by (simp_all add: NewExec_def)

text \<open>
  C5. The run error of an invocation is the first failure of the sequence open, start,
  close-input, drain, wait. It is sticky: when opening the pipes fails the command is
  not started (and nothing later is called); when the start fails, the input is not
  closed and neither stream is read nor the exit awaited; when closing the input fails,
  the streams are not read and the exit is not awaited; when draining fails, the exit is
  not awaited.
\<close>

theorem Exec_first_failure_sticky:
  "RunErr (snd (Exec w (NewExec environ command args))) = run_failure w
   \<and> (open_failure w \<noteq> None \<longrightarrow>
        set (fst (Exec w (NewExec environ command args)))
          \<inter> {OpStart, OpCallback, OpCloseStdin, OpReadStdout, OpReadStderr, OpWait} = {})
   \<and> (open_failure w = None \<and> start w \<noteq> None \<longrightarrow>
        set (fst (Exec w (NewExec environ command args)))
          \<inter> {OpCallback, OpCloseStdin, OpReadStdout, OpReadStderr, OpWait} = {})
   \<and> (open_failure w = None \<and> start w = None \<and> close_stdin w \<noteq> None \<longrightarrow>
        set (fst (Exec w (NewExec environ command args)))
          \<inter> {OpReadStdout, OpReadStderr, OpWait} = {})
   \<and> (open_failure w = None \<and> start w = None \<and> close_stdin w = None
        \<and> drain_failure w \<noteq> None \<longrightarrow>
        OpWait \<notin> set (fst (Exec w (NewExec environ command args))))"
proof -
  let ?e = "NewExec environ command args"
  have err: "RunErr (snd (Exec w ?e)) = run_failure w"
    by (rule Exec_RunErr) (simp add: NewExec_fields)
  have t1: "set (fst (Open w ?e)) \<subseteq> {OpStdinPipe, OpStdoutPipe, OpStderrPipe}"
    by (rule Open_trace)
  have t2: "set (fst (Read w (snd (snd (Open w ?e))))) \<subseteq> {OpReadStdout, OpReadStderr}"
    by (rule Read_trace)
  have a: "open_failure w \<noteq> None \<longrightarrow>
        set (fst (Exec w ?e))
          \<inter> {OpStart, OpCallback, OpCloseStdin, OpReadStdout, OpReadStderr, OpWait} = {}"
    using t1 by (auto simp: Exec_unfold Let_def)
  have b: "open_failure w = None \<and> start w \<noteq> None \<longrightarrow>
        set (fst (Exec w ?e)) \<inter> {OpCallback, OpCloseStdin, OpReadStdout, OpReadStderr, OpWait} = {}"
    using t1 by (auto simp: Exec_unfold Let_def)
  have c: "open_failure w = None \<and> start w = None \<and> close_stdin w \<noteq> None \<longrightarrow>
        set (fst (Exec w ?e)) \<inter> {OpReadStdout, OpReadStderr, OpWait} = {}"
    using t1 by (auto simp: Exec_unfold Let_def)
  have d: "open_failure w = None \<and> start w = None \<and> close_stdin w = None
        \<and> drain_failure w \<noteq> None \<longrightarrow> OpWait \<notin> set (fst (Exec w ?e))"
    using t1 t2 by (auto simp: Exec_unfold Let_def)
  from err a b c d show ?thesis by blast
qed

theorem Exec_first_failure_sticky_witness:
  "open_failure (world_ok\<lparr>stdout_pipe := Some (MkError ''pipe: too many open files'')\<rparr>) \<noteq> None
   \<and> fst (Exec (world_ok\<lparr>stdout_pipe := Some (MkError ''pipe: too many open files'')\<rparr>)
             (NewExec [] ''cat'' [])) = [OpStdinPipe, OpStdoutPipe]
   \<and> open_failure (world_ok\<lparr>start := Some (MkError ''exec: no command'')\<rparr>) = None
   \<and> start (world_ok\<lparr>start := Some (MkError ''exec: no command'')\<rparr>) \<noteq> None
   \<and> RunErr (snd (Exec (world_ok\<lparr>start := Some (MkError ''exec: no command'')\<rparr>)
                    (NewExec [] ''cat'' []))) = Some (MkError ''exec: no command'')
   \<and> set (fst (Exec (world_ok\<lparr>start := Some (MkError ''exec: no command'')\<rparr>)
                  (NewExec [] ''cat'' [])))
        \<inter> {OpCallback, OpCloseStdin, OpReadStdout, OpReadStderr, OpWait} = {}"
  using Exec_first_failure_sticky
      [of "world_ok\<lparr>start := Some (MkError ''exec: no command'')\<rparr>" "[]" "''cat''" "[]"]
    Exec_first_failure_sticky
      [of "world_ok\<lparr>stdout_pipe := Some (MkError ''pipe: too many open files'')\<rparr>"
          "[]" "''cat''" "[]"]
  by (simp add: world_ok_def open_failure_def run_failure_def Exec_def Open_def NewExec_def)


subsection \<open>Status code and body\<close>

lemma Exec_handles:
  "open_failure w = None \<Longrightarrow>
     stdin (snd (Exec w e)) = Some InputWrite
     \<and> stdout (snd (Exec w e)) = Some OutputRead
     \<and> stderr (snd (Exec w e)) = Some ErrorRead"
  using Open_handles [of w e]
  by (simp add: Exec_unfold Let_def Read_fields split: option.splits)

lemma Exec_closes_input:
  "open_failure w = None \<Longrightarrow> start w = None \<Longrightarrow> OpCloseStdin \<in> set (fst (Exec w e))"
  by (simp add: Exec_unfold Let_def split: option.splits)

lemma Exec_buffers:
  "open_failure w = None \<Longrightarrow> start w = None \<Longrightarrow> close_stdin w = None \<Longrightarrow>
   drain_failure w = None \<Longrightarrow>
     ReadOut (snd (Exec w e)) = Some (projr (read_stdout w))
     \<and> ReadErr (snd (Exec w e)) = Some (projr (read_stderr w))"
  using Read_buffers [of w "snd (snd (Open w e))"]
  by (simp add: Exec_unfold Let_def split: option.splits)

lemma run_failure_None:
  "run_failure w = None \<longleftrightarrow>
     open_failure w = None \<and> start w = None \<and> close_stdin w = None
     \<and> drain_failure w = None \<and> wait w = None"
  by (cases "open_failure w"; cases "start w"; cases "close_stdin w";
      cases "drain_failure w"; cases "wait w")
    (simp_all add: run_failure_def)

lemma Exec_ReadOut:
  "run_failure w = None \<Longrightarrow> read_stdout w = Inr out \<Longrightarrow>
     ReadOut (snd (Exec w e)) = Some out"
  using Exec_buffers [of w e] by (simp add: run_failure_None)

text \<open>
  C2, counterexample. \<open>StatusCode\<close> looks at the text of the run error, not at the
  error: a run whose start fails with an error of empty text has its run error set, and
  its status is 200 all the same.
\<close>

theorem StatusCode_empty_message_counterexample:
  "RunErr (snd (Exec (world_ok\<lparr>start := Some (MkError [])\<rparr>) (NewExec [] ''cat'' [])))
     = Some (MkError [])
   \<and> StatusCode (snd (Exec (world_ok\<lparr>start := Some (MkError [])\<rparr>) (NewExec [] ''cat'' [])))
     = 200"
  by (simp add: world_ok_def Exec_def Open_def NewExec_def StatusCode_def ErrorMsg_def)

text \<open>
  C2, as amended. With no run error set, \<open>StatusCode\<close> is 200 and \<open>StatusBody\<close>
  returns the captured output bytes as they are (and leaves the object alone): after a
  run in which no stage failed, the body is exactly what was read from the output stream.
  With a run error whose text is not empty, \<open>StatusCode\<close> is 400. These are the only
  two status values.
\<close>

theorem StatusCode_StatusBody:
  "(RunErr e = None \<longrightarrow> StatusCode e = 200 \<and> StatusBody e = (ReadOut e, e))
   \<and> (run_failure w = None \<and> read_stdout w = Inr out \<longrightarrow>
        StatusCode (snd (Exec w (NewExec environ command args))) = 200
        \<and> fst (StatusBody (snd (Exec w (NewExec environ command args)))) = Some out)
   \<and> (\<forall>err. RunErr e = Some err \<and> Error err \<noteq> [] \<longrightarrow> StatusCode e = 400)
   \<and> (StatusCode e = 200 \<or> StatusCode e = 400)"
proof -
  have run: "run_failure w = None \<and> read_stdout w = Inr out \<longrightarrow>
        StatusCode (snd (Exec w (NewExec environ command args))) = 200
        \<and> fst (StatusBody (snd (Exec w (NewExec environ command args)))) = Some out"
  proof
    assume a: "run_failure w = None \<and> read_stdout w = Inr out"
    then have "RunErr (snd (Exec w (NewExec environ command args))) = None"
      by (simp add: Exec_RunErr NewExec_fields)
    moreover have "ReadOut (snd (Exec w (NewExec environ command args))) = Some out"
      using a by (simp add: Exec_ReadOut)
    ultimately show "StatusCode (snd (Exec w (NewExec environ command args))) = 200
        \<and> fst (StatusBody (snd (Exec w (NewExec environ command args)))) = Some out"
      by (simp add: StatusCode_def StatusBody_def ErrorMsg_def)
  qed
  show ?thesis
    using run by (simp add: StatusCode_def StatusBody_def ErrorMsg_def)
qed

theorem StatusCode_StatusBody_witness:
  "run_failure world_ok = None \<and> read_stdout world_ok = Inr ''out''
   \<and> RunErr (snd (Exec world_ok (NewExec [] ''cat'' []))) = None
   \<and> StatusCode (snd (Exec world_ok (NewExec [] ''cat'' []))) = 200
   \<and> fst (StatusBody (snd (Exec world_ok (NewExec [] ''cat'' [])))) = Some ''out''
   \<and> RunErr (snd (Exec (world_ok\<lparr>wait := Some (MkError ''exit status 2'')\<rparr>)
                   (NewExec [] ''cat'' []))) = Some (MkError ''exit status 2'')
   \<and> Error (MkError ''exit status 2'') \<noteq> []
   \<and> StatusCode (snd (Exec (world_ok\<lparr>wait := Some (MkError ''exit status 2'')\<rparr>)
                   (NewExec [] ''cat'' []))) = 400"
  using StatusCode_StatusBody
      [of "snd (Exec world_ok (NewExec [] ''cat'' []))" world_ok "''out''" "[]" "''cat''" "[]"]
    StatusCode_StatusBody
      [of "snd (Exec (world_ok\<lparr>wait := Some (MkError ''exit status 2'')\<rparr>)
                (NewExec [] ''cat'' []))" world_ok "''out''" "[]" "''cat''" "[]"]
  by (simp add: world_ok_def Exec_def Open_def Read_def NewExec_def run_failure_def
      open_failure_def drain_failure_def)

subsection \<open>Releasing the pipes\<close>

text \<open>
  C3, counterexample. When the first pipe request fails, the handles of the two streams
  are nil and \<open>Close\<close> faults on the first of them. When the start fails, \<open>Close\<close>
  closes the two stream handles, and nothing in the wrapper closes the input handle:
  \<open>Close\<close> never touches it and \<open>Exec\<close> has returned before its own call.
\<close>

theorem Close_counterexample:
  "Close (snd (Exec (world_ok\<lparr>stdin_pipe := Some (MkError ''exec: Stdin already set'')\<rparr>)
                 (NewExec [] ''cat'' []))) = Inl NilDereference
   \<and> Close (snd (Exec (world_ok\<lparr>start := Some (MkError ''exec: no command'')\<rparr>)
                   (NewExec [] ''cat'' []))) = Inr [ErrorRead, OutputRead]
   \<and> OpCloseStdin \<notin> set (fst (Exec (world_ok\<lparr>start := Some (MkError ''exec: no command'')\<rparr>)
                   (NewExec [] ''cat'' [])))"
  by (simp add: world_ok_def Exec_def Open_def NewExec_def Close_def)

text \<open>
  C3, as amended. After every invocation in which the three pipes were acquired,
  \<open>Close\<close> closes the error-read handle and the output-read handle without fault; the
  input-write handle is closed by \<open>Exec\<close> itself, whenever the command was started.
\<close>

theorem Close_after_Open:
  "open_failure w = None \<Longrightarrow>
     Close (snd (Exec w (NewExec environ command args))) = Inr [ErrorRead, OutputRead]
     \<and> (start w = None \<longrightarrow> OpCloseStdin \<in> set (fst (Exec w (NewExec environ command args))))"
  using Exec_handles [of w "NewExec environ command args"]
    Exec_closes_input [of w "NewExec environ command args"]
  by (simp add: Close_def)

theorem Close_after_Open_witness:
  "open_failure (world_ok\<lparr>wait := Some (MkError ''exit status 2'')\<rparr>) = None
   \<and> start (world_ok\<lparr>wait := Some (MkError ''exit status 2'')\<rparr>) = None
   \<and> Close (snd (Exec (world_ok\<lparr>wait := Some (MkError ''exit status 2'')\<rparr>)
                   (NewExec [] ''cat'' []))) = Inr [ErrorRead, OutputRead]
   \<and> OpCloseStdin \<in> set (fst (Exec (world_ok\<lparr>wait := Some (MkError ''exit status 2'')\<rparr>)
                   (NewExec [] ''cat'' [])))"
  using Close_after_Open
      [of "world_ok\<lparr>wait := Some (MkError ''exit status 2'')\<rparr>" "[]" "''cat''" "[]"]
  by (simp add: world_ok_def open_failure_def)

subsection \<open>The error payload\<close>




subsection \<open>The scanner reads a value with any bound from its length on\<close>

lemma length_skip_space: "length (skip_space cs) \<le> length cs"
  by (induction cs) auto

lemma skip_space_Cons: "skip_space cs = c # r \<Longrightarrow> length r < length cs"
  using length_skip_space [of cs] by simp

lemma length_scan_string: "scan_string cs = Some r \<Longrightarrow> length r < length cs"
proof (induction cs arbitrary: r rule: scan_string.induct)
  case 1
  then show ?case by simp
next
  case (2 c cs)
  then show ?case
    by (fastforce split: if_splits list.splits)
qed

lemma length_scan_digits1: "scan_digits1 cs = Some r \<Longrightarrow> length r < length cs"
  using length_dropWhile_le [of is_digit "tl cs"]
  by (auto simp: scan_digits1_def split: list.splits if_splits)

lemma length_scan_exponent: "scan_exponent cs = Some r \<Longrightarrow> length r \<le> length cs"
  by (auto simp: scan_exponent_def split: list.splits if_splits
      dest!: length_scan_digits1)

lemma length_scan_fraction: "scan_fraction cs = Some r \<Longrightarrow> length r \<le> length cs"
  by (auto simp: scan_fraction_def split: list.splits if_splits option.splits
      dest!: length_scan_digits1 length_scan_exponent)

lemma length_scan_number: "scan_number cs = Some r \<Longrightarrow> length r < length cs"
proof -
  assume a: "scan_number cs = Some r"
  have d: "\<And>xs. length (dropWhile is_digit xs) \<le> length xs"
    by (rule length_dropWhile_le)
  show ?thesis
    using a d
    by (auto simp: scan_number_def split: list.splits if_splits
        dest!: length_scan_fraction intro: le_less_trans le_trans less_SucI)
qed

lemma length_scan_literal:
  "lit \<noteq> [] \<Longrightarrow> scan_literal lit cs = Some r \<Longrightarrow> length r < length cs"
  by (cases cs) (auto simp: scan_literal_def split: if_splits)

lemma length_scan_scalar: "scan_scalar c r = Some r' \<Longrightarrow> length r' < length (c # r)"
proof -
  assume a: "scan_scalar c r = Some r'"
  have t: "''true'' \<noteq> []" and f: "''false'' \<noteq> []" and n: "''null'' \<noteq> []"
    by simp_all
  show ?thesis
    using a length_scan_string [of r r'] length_scan_number [of "c # r" r']
      length_scan_literal [OF t, of "c # r" r'] length_scan_literal [OF f, of "c # r" r']
      length_scan_literal [OF n, of "c # r" r']
    by (auto simp: scan_scalar_def split: if_splits)
qed

lemma length_Cons_le: "skip_space cs = c # r \<Longrightarrow> length (c # r) \<le> length cs"
  using length_skip_space [of cs] by simp

lemma scan_value_Suc:
  "skip_space cs = c # rest \<Longrightarrow>
   scan_value (Suc k) cs =
     (if c = CHR ''{'' then
        (case skip_space rest of
           [] \<Rightarrow> None
         | d # r' \<Rightarrow> (if d = CHR ''}'' then Some r' else scan_members k rest))
      else if c = CHR ''['' then
        (case skip_space rest of
           [] \<Rightarrow> None
         | d # r' \<Rightarrow> (if d = CHR '']'' then Some r' else scan_elements k rest))
      else scan_scalar c rest)"
  by simp

lemma scan_after_value:
  "scan_elements (Suc k) cs =
     (case scan_value k cs of
        None \<Rightarrow> None
      | Some r3 \<Rightarrow>
          (case skip_space r3 of
             [] \<Rightarrow> None
           | x # r4 \<Rightarrow>
               (if x = CHR '','' then scan_elements k r4
                else if x = CHR '']'' then Some r4
                else None)))"
  by simp

lemma scan_members_Suc:
  "skip_space cs = CHR 0x22 # r0 \<Longrightarrow> scan_string r0 = Some r1 \<Longrightarrow>
   skip_space r1 = CHR '':'' # r2 \<Longrightarrow>
   scan_members (Suc k) cs =
     (case scan_value k r2 of
        None \<Rightarrow> None
      | Some r3 \<Rightarrow>
          (case skip_space r3 of
             [] \<Rightarrow> None
           | x # r4 \<Rightarrow>
               (if x = CHR '','' then scan_members k r4
                else if x = CHR ''}'' then Some r4
                else None)))"
  by simp

lemma scan_fuel:
  "scan_value m cs = Some r \<Longrightarrow>
     length r < length cs \<and> (\<forall>f. length cs - length r \<le> f \<longrightarrow> scan_value f cs = Some r)"
  "scan_members m cs = Some r \<Longrightarrow>
     length r < length cs \<and> (\<forall>f. length cs - length r \<le> f \<longrightarrow> scan_members f cs = Some r)"
  "scan_elements m cs = Some r \<Longrightarrow>
     length r < length cs \<and> (\<forall>f. length cs - length r \<le> f \<longrightarrow> scan_elements f cs = Some r)"
proof (induction m cs and m cs and m cs arbitrary: r and r and r
    rule: scan_value_scan_members_scan_elements.induct)
  case (1 cs)
  then show ?case by simp
next
  case (2 n cs)
  from "2.prems" obtain c rest where sk: "skip_space cs = c # rest"
    by (auto split: list.splits)
  have lrest: "length rest < length cs"
    using sk by (rule skip_space_Cons)
  note eq = scan_value_Suc [OF sk]
  consider (obj) "c = CHR ''{''" | (arr) "c \<noteq> CHR ''{''" "c = CHR ''[''"
    | (scalar) "c \<noteq> CHR ''{''" "c \<noteq> CHR ''[''"
    by blast
  then show ?case
  proof cases
    case obj
    from "2.prems" obj obtain d r' where sk2: "skip_space rest = d # r'"
      unfolding eq by (auto split: list.splits)
    have l2: "length r' < length rest"
      using sk2 by (rule skip_space_Cons)
    show ?thesis
    proof (cases "d = CHR ''}''")
      case True
      then have r: "r = r'"
        using "2.prems" obj sk2 unfolding eq by simp
      have "scan_value f cs = Some r" if "length cs - length r \<le> f" for f
      proof -
        from that lrest l2 r obtain f' where f': "f = Suc f'"
          by (cases f) auto
        show ?thesis
          unfolding f' eq using obj sk2 True r by simp
      qed
      then show ?thesis
        using lrest l2 r by simp
    next
      case False
      then have mem: "scan_members n rest = Some r"
        using "2.prems" obj sk2 unfolding eq by simp
      from "2.IH"(1) [OF sk obj sk2 False mem]
      have len: "length r < length rest"
        and fuel: "\<And>f. length rest - length r \<le> f \<Longrightarrow> scan_members f rest = Some r"
        by simp_all
      have "scan_value f cs = Some r" if "length cs - length r \<le> f" for f
      proof -
        from that lrest len obtain f' where f': "f = Suc f'"
          by (cases f) auto
        have "length rest - length r \<le> f'"
          using that f' lrest by simp
        from fuel [OF this] show ?thesis
          unfolding f' eq using obj sk2 False by simp
      qed
      then show ?thesis
        using lrest len by simp
    qed
  next
    case arr
    from "2.prems" arr obtain d r' where sk2: "skip_space rest = d # r'"
      unfolding eq by (auto split: list.splits)
    have l2: "length r' < length rest"
      using sk2 by (rule skip_space_Cons)
    show ?thesis
    proof (cases "d = CHR '']''")
      case True
      then have r: "r = r'"
        using "2.prems" arr sk2 unfolding eq by simp
      have "scan_value f cs = Some r" if "length cs - length r \<le> f" for f
      proof -
        from that lrest l2 r obtain f' where f': "f = Suc f'"
          by (cases f) auto
        show ?thesis
          unfolding f' eq using arr sk2 True r by simp
      qed
      then show ?thesis
        using lrest l2 r by simp
    next
      case False
      then have el: "scan_elements n rest = Some r"
        using "2.prems" arr sk2 unfolding eq by simp
      from "2.IH"(2) [OF sk arr sk2 False el]
      have len: "length r < length rest"
        and fuel: "\<And>f. length rest - length r \<le> f \<Longrightarrow> scan_elements f rest = Some r"
        by simp_all
      have "scan_value f cs = Some r" if "length cs - length r \<le> f" for f
      proof -
        from that lrest len obtain f' where f': "f = Suc f'"
          by (cases f) auto
        have "length rest - length r \<le> f'"
          using that f' lrest by simp
        from fuel [OF this] show ?thesis
          unfolding f' eq using arr sk2 False by simp
      qed
      then show ?thesis
        using lrest len by simp
    qed
  next
    case scalar
    then have sc: "scan_scalar c rest = Some r"
      using "2.prems" unfolding eq by simp
    have len: "length r < length cs"
      using length_scan_scalar [OF sc] length_Cons_le [OF sk] by simp
    have "scan_value f cs = Some r" if "length cs - length r \<le> f" for f
    proof -
      from that len obtain f' where f': "f = Suc f'"
        by (cases f) auto
      show ?thesis
        unfolding f' eq using scalar sc by simp
    qed
    then show ?thesis
      using len by simp
  qed
next
  case (3 cs)
  then show ?case by simp
next
  case (4 n cs)
  from "4.prems" obtain c r0 where sk: "skip_space cs = c # r0"
    by (auto split: list.splits)
  from "4.prems" sk have c: "c = CHR 0x22"
    by (auto split: if_splits)
  from "4.prems" sk c obtain r1 where str: "scan_string r0 = Some r1"
    by (auto split: option.splits)
  from "4.prems" sk c str obtain d r2 where sk1: "skip_space r1 = d # r2"
    by (auto split: list.splits)
  from "4.prems" sk c str sk1 have d: "d = CHR '':''"
    by (auto split: if_splits)
  note eq = scan_members_Suc [OF sk [unfolded c] str sk1 [unfolded d]]
  from "4.prems" obtain r3 where val: "scan_value n r2 = Some r3"
    unfolding eq by (auto split: option.splits)
  from "4.prems" val obtain x r4 where sk3: "skip_space r3 = x # r4"
    unfolding eq by (auto split: list.splits)
  from "4.IH"(1) [OF sk c str sk1 d val]
  have lv: "length r3 < length r2"
    and fv: "\<And>f. length r2 - length r3 \<le> f \<Longrightarrow> scan_value f r2 = Some r3"
    by simp_all
  have l0: "length r0 < length cs" using sk by (rule skip_space_Cons)
  have l1: "length r1 < length r0" using str by (rule length_scan_string)
  have l2: "length r2 < length r1" using sk1 by (rule skip_space_Cons)
  have l4: "length r4 < length r3" using sk3 by (rule skip_space_Cons)
  show ?case
  proof (cases "x = CHR '',''")
    case True
    then have mem: "scan_members n r4 = Some r"
      using "4.prems" val sk3 unfolding eq by simp
    from "4.IH"(2) [OF sk c str sk1 d val sk3 True mem]
    have lm: "length r < length r4"
      and fm: "\<And>f. length r4 - length r \<le> f \<Longrightarrow> scan_members f r4 = Some r"
      by simp_all
    have "scan_members f cs = Some r" if "length cs - length r \<le> f" for f
    proof -
      from that l0 l1 l2 lv l4 lm obtain f' where f': "f = Suc f'"
        by (cases f) auto
      have v: "scan_value f' r2 = Some r3"
        by (rule fv) (use that f' l0 l1 l2 lv l4 lm in linarith)
      have m: "scan_members f' r4 = Some r"
        by (rule fm) (use that f' l0 l1 l2 lv l4 lm in linarith)
      show ?thesis
        unfolding f' eq using v m sk3 True by simp
    qed
    then show ?thesis
      using l0 l1 l2 lv l4 lm by simp
  next
    case False
    then have x: "x = CHR ''}''" and r: "r = r4"
      using "4.prems" val sk3 unfolding eq by (auto split: if_splits)
    have "scan_members f cs = Some r" if "length cs - length r \<le> f" for f
    proof -
      from that l0 l1 l2 lv l4 r obtain f' where f': "f = Suc f'"
        by (cases f) auto
      have v: "scan_value f' r2 = Some r3"
        by (rule fv) (use that f' l0 l1 l2 lv l4 r in simp)
      show ?thesis
        unfolding f' eq using v sk3 x r by simp
    qed
    then show ?thesis
      using l0 l1 l2 lv l4 r by simp
  qed
next
  case (5 cs)
  then show ?case by simp
next
  case (6 n cs)
  note eq = scan_after_value
  from "6.prems" obtain r3 where val: "scan_value n cs = Some r3"
    unfolding eq by (auto split: option.splits)
  from "6.prems" val obtain x r4 where sk3: "skip_space r3 = x # r4"
    unfolding eq by (auto split: list.splits)
  from "6.IH"(1) [OF val]
  have lv: "length r3 < length cs"
    and fv: "\<And>f. length cs - length r3 \<le> f \<Longrightarrow> scan_value f cs = Some r3"
    by simp_all
  have l4: "length r4 < length r3" using sk3 by (rule skip_space_Cons)
  show ?case
  proof (cases "x = CHR '',''")
    case True
    then have el: "scan_elements n r4 = Some r"
      using "6.prems" val sk3 unfolding eq by simp
    from "6.IH"(2) [OF val sk3 True el]
    have le: "length r < length r4"
      and fe: "\<And>f. length r4 - length r \<le> f \<Longrightarrow> scan_elements f r4 = Some r"
      by simp_all
    have "scan_elements f cs = Some r" if "length cs - length r \<le> f" for f
    proof -
      from that lv l4 le obtain f' where f': "f = Suc f'"
        by (cases f) auto
      have v: "scan_value f' cs = Some r3"
        by (rule fv) (use that f' lv l4 le in linarith)
      have e: "scan_elements f' r4 = Some r"
        by (rule fe) (use that f' lv l4 le in linarith)
      show ?thesis
        unfolding f' eq using v e sk3 True by simp
    qed
    then show ?thesis
      using lv l4 le by simp
  next
    case False
    then have x: "x = CHR '']''" and r: "r = r4"
      using "6.prems" val sk3 unfolding eq by (auto split: if_splits)
    have "scan_elements f cs = Some r" if "length cs - length r \<le> f" for f
    proof -
      from that lv l4 r obtain f' where f': "f = Suc f'"
        by (cases f) auto
      have v: "scan_value f' cs = Some r3"
        by (rule fv) (use that f' lv l4 r in simp)
      show ?thesis
        unfolding f' eq using v sk3 x r by simp
    qed
    then show ?thesis
      using lv l4 r by simp
  qed
qed

lemma checkValid_enough_fuel:
  assumes "scan_value m data = Some r" and "skip_space r = []"
  shows "checkValid data"
proof -
  from scan_fuel(1) [OF assms(1)]
  have enough: "\<forall>f. length data - length r \<le> f \<longrightarrow> scan_value f data = Some r"
    by (rule conjunct2)
  have "length data - length r \<le> Suc (length data)"
    by simp
  with enough have "scan_value (Suc (length data)) data = Some r"
    by blast
  then show ?thesis
    using assms(2) by (simp add: checkValid_def)
qed

subsection \<open>The body of a failed run\<close>


lemma checkValid_empty: "\<not> checkValid []"
  by (simp add: checkValid_def)







text \<open>
  Two bodies, byte for byte: that of a command that wrote a JSON document to its error
  stream and exited with status 1, where the document comes back indented as part of the
  payload, and that of a command that exited with status 2.
\<close>

lemma StatusBody_foo_bar:
  \<open>fst (StatusBody (snd (Exec world_exit1 (NewExec [] ''sh'' [])))) =
     Some (concat
       [''{'', [CHR 0x0A],
        ''    "name": "exec_error",'', [CHR 0x0A],
        ''    "url": "http://docs.synq.fm/api/v1/errors/",'', [CHR 0x0A],
        ''    "message": "An error occured while running your script",'', [CHR 0x0A],
        ''    "details": {'', [CHR 0x0A],
        ''        "foo": "bar"'', [CHR 0x0A],
        ''    }'', [CHR 0x0A],
        ''}''])\<close>
  by code_simp

lemma StatusBody_exit_status_2:
  \<open>fst (StatusBody (snd (Exec (world_ok\<lparr>wait := Some (MkError ''exit status 2'')\<rparr>)
                             (NewExec [] ''sh'' [])))) =
     Some (concat
       [''{'', [CHR 0x0A],
        ''    "name": "exec_error",'', [CHR 0x0A],
        ''    "url": "http://docs.synq.fm/api/v1/errors/",'', [CHR 0x0A],
        ''    "message": "exit status 2"'', [CHR 0x0A],
        ''}''])\<close>
  by code_simp




section \<open>Proofs about the single-instance guard\<close>

subsection \<open>The decimal text of a PID is read back as that PID\<close>

lemma of_char_digit:
  "0 \<le> d \<Longrightarrow> d < 10 \<Longrightarrow> (of_char (char_of (48 + d :: int)) :: int) = 48 + d"
  by simp

lemma is_digit_int: "is_digit c \<longleftrightarrow> 48 \<le> (of_char c :: int) \<and> (of_char c :: int) \<le> 57"
proof -
  have "(of_char c :: int) = int (of_char c)"
    by (simp only: of_nat_of_char)
  then show ?thesis
    unfolding is_digit_def by linarith
qed

lemma is_digit_char_of: "0 \<le> d \<Longrightarrow> d < 10 \<Longrightarrow> is_digit (char_of (48 + d :: int))"
  by (simp add: is_digit_int)

lemma is_digit_not_sign: "is_digit c \<Longrightarrow> c \<noteq> CHR ''+'' \<and> c \<noteq> CHR ''-''"
  by (auto simp: is_digit_def)

lemma ParseUint_loop_digit:
  assumes "0 \<le> d" "d < 10" "0 \<le> a" "a * 10 + d \<le> maxUint64"
  shows "ParseUint_loop a (char_of (48 + d) # ds) = ParseUint_loop (a * 10 + d) ds"
proof -
  have "a < maxUint64 div 10 + 1"
    using assms unfolding maxUint64_def by linarith
  then show ?thesis
    using assms by (simp add: is_digit_char_of)
qed

lemma FormatUint_hd:
  "0 \<le> n \<Longrightarrow> \<exists>c r. FormatUint n = c # r \<and> is_digit c"
proof (induction n rule: FormatUint.induct)
  case (1 n)
  show ?case
  proof (cases "n < 10")
    case True
    then show ?thesis
      using "1.prems" by (simp add: FormatUint.simps [of n] is_digit_char_of)
  next
    case False
    then have "0 \<le> n div 10" by simp
    with "1.IH" False obtain c r where "FormatUint (n div 10) = c # r" "is_digit c"
      by blast
    then show ?thesis
      using False by (simp add: FormatUint.simps [of n])
  qed
qed

lemma ParseUint_loop_FormatUint:
  "0 \<le> n \<Longrightarrow> 0 \<le> a \<Longrightarrow> a * 10 ^ length (FormatUint n) + n \<le> maxUint64 \<Longrightarrow>
     ParseUint_loop a (FormatUint n @ ds)
       = ParseUint_loop (a * 10 ^ length (FormatUint n) + n) ds"
proof (induction n arbitrary: ds rule: FormatUint.induct)
  case (1 n)
  show ?case
  proof (cases "n < 10")
    case True
    then show ?thesis
      using "1.prems" ParseUint_loop_digit [of n a ds]
      by (simp add: FormatUint.simps [of n])
  next
    case False
    define k where "k = length (FormatUint (n div 10))"
    define A where "A = a * 10 ^ k"
    have fmt: "FormatUint n = FormatUint (n div 10) @ [char_of (48 + n mod 10)]"
      using False by (simp add: FormatUint.simps [of n])
    have len: "length (FormatUint n) = Suc k"
      by (simp add: fmt k_def)
    have A0: "0 \<le> A"
      using "1.prems" by (simp add: A_def)
    have bound: "A * 10 + n \<le> maxUint64"
      using "1.prems"(3) by (simp add: len A_def mult.assoc)
    have n10: "0 \<le> n div 10" "0 \<le> n mod 10" "n mod 10 < 10"
      using "1.prems"(1) by simp_all
    have split: "n = (n div 10) * 10 + n mod 10"
      by simp
    have b1: "A + n div 10 \<le> maxUint64"
      using bound A0 n10 split by linarith
    have step1: "ParseUint_loop a (FormatUint (n div 10) @ char_of (48 + n mod 10) # ds)
        = ParseUint_loop (A + n div 10) (char_of (48 + n mod 10) # ds)"
      using "1.IH" [OF False n10(1) "1.prems"(2), of "char_of (48 + n mod 10) # ds"] b1
      by (simp add: A_def k_def)
    have "(A + n div 10) * 10 + n mod 10 = A * 10 + (n div 10 * 10 + n mod 10)"
      by (simp add: algebra_simps)
    then have b2: "(A + n div 10) * 10 + n mod 10 \<le> maxUint64"
      using bound by simp
    have step2: "ParseUint_loop (A + n div 10) (char_of (48 + n mod 10) # ds)
        = ParseUint_loop ((A + n div 10) * 10 + n mod 10) ds"
      using ParseUint_loop_digit [OF n10(2) n10(3) _ b2] A0 n10 by simp
    have fin: "(A + n div 10) * 10 + n mod 10 = a * 10 ^ length (FormatUint n) + n"
      using split by (simp add: len A_def algebra_simps)
    have "ParseUint_loop a (FormatUint n @ ds)
        = ParseUint_loop a (FormatUint (n div 10) @ char_of (48 + n mod 10) # ds)"
      by (simp only: fmt append_assoc append_Cons append_Nil)
    also have "\<dots> = ParseUint_loop (A + n div 10) (char_of (48 + n mod 10) # ds)"
      by (rule step1)
    also have "\<dots> = ParseUint_loop ((A + n div 10) * 10 + n mod 10) ds"
      by (rule step2)
    also have "\<dots> = ParseUint_loop (a * 10 ^ length (FormatUint n) + n) ds"
      by (simp only: fin)
    finally show ?thesis .
  qed
qed

lemma ParseUint_FormatUint:
  assumes "0 \<le> n" "n \<le> maxUint64"
  shows "ParseUint (FormatUint n) = (n, None)"
proof -
  from FormatUint_hd [OF assms(1)] have ne: "FormatUint n \<noteq> []"
    by auto
  have "ParseUint_loop 0 (FormatUint n @ []) = ParseUint_loop (0 * 10 ^ length (FormatUint n) + n) []"
    by (rule ParseUint_loop_FormatUint) (use assms in simp_all)
  then show ?thesis
    using ne by (simp add: ParseUint_def)
qed

lemma ParseInt_FormatInt:
  assumes "- (2 ^ 63) \<le> p" "p < 2 ^ 63"
  shows "ParseInt (FormatInt p) = (p, None)"
proof (cases "p < 0")
  case True
  have "ParseUint (FormatUint (- p)) = (- p, None)"
    by (rule ParseUint_FormatUint) (use True assms in \<open>simp_all add: maxUint64_def\<close>)
  then show ?thesis
    using True assms by (simp add: ParseInt_def FormatInt_def Let_def)
next
  case False
  then have p0: "0 \<le> p" by simp
  from FormatUint_hd [OF p0] obtain c r where cr: "FormatUint p = c # r" "is_digit c"
    by blast
  have "ParseUint (FormatUint p) = (p, None)"
    by (rule ParseUint_FormatUint) (use p0 assms in \<open>simp_all add: maxUint64_def\<close>)
  then show ?thesis
    using False assms cr is_digit_not_sign [OF cr(2)]
    by (simp add: ParseInt_def FormatInt_def Let_def)
qed

subsection \<open>What CheckPid returns and leaves in the lock file\<close>

lemma Contains_prefix: "Contains (ys @ zs) ys"
proof (cases "ys @ zs")
  case Nil
  then show ?thesis by simp
next
  case (Cons a l)
  have "take (length ys) (ys @ zs) = ys"
    by simp
  then have "take (length ys) (a # l) = ys"
    unfolding Cons .
  then show ?thesis
    unfolding Cons by simp
qed

lemma Contains_append: "Contains (xs @ ys @ zs) ys"
proof (induction xs)
  case Nil
  show ?case using Contains_prefix [of ys zs] by simp
next
  case (Cons x xs)
  then show ?case by simp
qed

lemma NewError_names_pid: "Contains (Error (NewError pid)) (FormatInt pid)"
  using Contains_append [of "''Pid '' @ [CHR 0x27]" "FormatInt pid"
      "[CHR 0x27] @ '' already exists, will not run''"]
  by (simp add: NewError_def)

lemma WriteFile_eq:
  "WriteFile w lock new =
     (if \<not> write_fails w then Some new
      else case write_stops w of None \<Rightarrow> lock | Some n \<Rightarrow> Some (take n new))"
  by (simp add: WriteFile_def)

lemma CheckPid_absent_eq:
  "CheckPid w None = ((Getpid w, None), WriteFile w None (FormatInt (Getpid w)))"
  by (simp add: CheckPid_def Let_def)

lemma CheckPid_present_eq:
  "CheckPid w (Some content) =
     (if Getpid w = fst (ParseInt (ReadFile w content))
      then ((Getpid w, None), Some content)
      else if pidExists (Signal0 w (fst (ParseInt (ReadFile w content))))
      then ((fst (ParseInt (ReadFile w content)),
             Some (NewError (fst (ParseInt (ReadFile w content))))), Some content)
      else ((Getpid w, None), WriteFile w (Some content) (FormatInt (Getpid w))))"
  by (simp add: CheckPid_def Let_def)








subsection \<open>A lock file that names another process\<close>




text \<open>
  C7. When the probe fails with a message that holds neither \<open>already finished\<close> nor
  \<open>no such process\<close>, \<open>CheckPid\<close> takes the recorded process to be alive: it returns
  the recorded PID with the error that names it, and leaves the file as it was.
\<close>

theorem CheckPid_fails_closed:
  assumes "fst (ParseInt (ReadFile w content)) = pid" and "pid \<noteq> Getpid w"
    and "Signal0 w pid = Some err"
    and "\<not> Contains (Error err) ''already finished''"
    and "\<not> Contains (Error err) ''no such process''"
  shows "CheckPid w (Some content) = ((pid, Some (NewError pid)), Some content)
         \<and> Contains (Error (NewError pid)) (FormatInt pid)"
  using assms by (simp add: CheckPid_present_eq pidExists_def NewError_names_pid)

theorem CheckPid_fails_closed_witness:
  "fst (ParseInt (ReadFile os_sample ''1'')) = 1 \<and> 1 \<noteq> Getpid os_sample
   \<and> Signal0 os_sample 1 = Some (MkError ''operation not permitted'')
   \<and> \<not> Contains (Error (MkError ''operation not permitted'')) ''already finished''
   \<and> \<not> Contains (Error (MkError ''operation not permitted'')) ''no such process''
   \<and> CheckPid os_sample (Some ''1'') = ((1, Some (NewError 1)), Some ''1'')"
proof -
  have p1: "fst (ParseInt (ReadFile os_sample ''1'')) = 1"
    by (simp add: os_sample_def ReadFile_def ParseInt_def ParseUint_def Let_def is_digit_def
        maxUint64_def)
  have own: "1 \<noteq> Getpid os_sample"
    by (simp add: os_sample_def)
  have s1: "Signal0 os_sample 1 = Some (MkError ''operation not permitted'')"
    by (simp add: os_sample_def)
  have c1: "\<not> Contains (Error (MkError ''operation not permitted'')) ''already finished''"
    by simp
  have c2: "\<not> Contains (Error (MkError ''operation not permitted'')) ''no such process''"
    by simp
  show ?thesis
    using CheckPid_fails_closed [OF p1 own s1 c1 c2] p1 own s1 c1 c2 by simp
qed

subsection \<open>No lock file\<close>




subsection \<open>Re-entry by the owner\<close>

lemma CheckPid_idempotent:
  assumes "\<not> read_fails w" "\<not> write_fails w"
    and "- (2 ^ 63) \<le> Getpid w" "Getpid w < 2 ^ 63"
    and "CheckPid w lock = ((p, None), lock')"
  shows "CheckPid w lock' = ((p, None), lock')"
proof -
  have reread: "fst (ParseInt (ReadFile w (FormatInt (Getpid w)))) = Getpid w"
    using assms(1) ParseInt_FormatInt [OF assms(3) assms(4)] by (simp add: ReadFile_def)
  show ?thesis
  proof (cases lock)
    case None
    then show ?thesis
      using assms(2,5) reread
      by (auto simp: CheckPid_absent_eq CheckPid_present_eq WriteFile_def)
  next
    case (Some content)
    then show ?thesis
      using assms(2,5) reread
      by (auto simp: CheckPid_present_eq WriteFile_def split: if_splits)
  qed
qed

text \<open>
  C9. When the PID recorded in the lock file is the caller's own, \<open>CheckPid\<close> returns
  the caller's PID and no error and does not write the file, and so does a second call
  right after it. Hence, where the lock file can be read and written, a call that
  succeeds is followed by a call of the same process that succeeds as well and leaves the
  file as the first call left it.
\<close>

theorem CheckPid_reentry:
  "(fst (ParseInt (ReadFile w content)) = Getpid w \<longrightarrow>
      CheckPid w (Some content) = ((Getpid w, None), Some content)
      \<and> CheckPid w (snd (CheckPid w (Some content))) = ((Getpid w, None), Some content))
   \<and> (\<not> read_fails w \<and> \<not> write_fails w \<and> - (2 ^ 63) \<le> Getpid w \<and> Getpid w < 2 ^ 63
       \<and> CheckPid w lock = ((p, None), lock') \<longrightarrow>
      CheckPid w lock' = ((p, None), lock'))"
  using CheckPid_idempotent [of w lock p lock'] by (simp add: CheckPid_present_eq)

theorem CheckPid_reentry_witness:
  "fst (ParseInt (ReadFile os_sample ''4242'')) = Getpid os_sample
   \<and> CheckPid os_sample (Some ''4242'') = ((4242, None), Some ''4242'')
   \<and> \<not> read_fails os_sample \<and> \<not> write_fails os_sample
   \<and> - (2 ^ 63) \<le> Getpid os_sample \<and> Getpid os_sample < 2 ^ 63
   \<and> CheckPid os_sample None = ((4242, None), Some ''4242'')
   \<and> CheckPid os_sample (snd (CheckPid os_sample None)) = ((4242, None), Some ''4242'')"
proof -
  have own: "Getpid os_sample = 4242" "\<not> write_fails os_sample" "\<not> read_fails os_sample"
    by (simp_all add: os_sample_def)
  have f: "FormatInt 4242 = ''4242''"
    by code_simp
  have first: "CheckPid os_sample None = ((4242, None), Some ''4242'')"
    using own f by (simp add: CheckPid_absent_eq WriteFile_def)
  have p: "fst (ParseInt (ReadFile os_sample ''4242'')) = Getpid os_sample"
    using own by (simp add: ReadFile_def ParseInt_def ParseUint_def Let_def is_digit_def
        maxUint64_def)
  show ?thesis
    using CheckPid_reentry [of os_sample "''4242''" None 4242 "Some ''4242''"] own first p
    by simp
qed

subsection \<open>A lock file that holds no PID\<close>




end
